theory Spec2Isabelle
  imports Main
begin

section \<open>classif.ai web client: a model of \<open>src/App.jsx\<close>\<close>

text \<open>
  The client is one React file. Its logic lives in three places: the event handlers of
  \<open>UploadZone\<close>, the pure rendering of \<open>ResultsView\<close>, and the controller \<open>App\<close> with
  its asynchronous handlers \<open>handleFileSelect\<close>, \<open>pollJobStatus\<close> and \<open>handleReset\<close>.
  Each is embedded below as the source has it. JavaScript strings are \<open>string\<close>;
  the numbers that occur (progress, issue numbers) are integers in the backend's
  interface and are modelled as \<open>int\<close>.
\<close>

subsection \<open>Strings\<close>

text \<open>\<open>String.prototype.startsWith\<close> with one argument: the receiver begins with the
  search string.\<close>

definition startsWith :: "string \<Rightarrow> string \<Rightarrow> bool" where
  "startsWith s p = (take (length p) s = p)"

subsection \<open>The upload zone (lines 78 to 174)\<close>

text \<open>A \<open>File\<close> of the browser, as far as the component reads it: its name and its MIME
  type \<open>file.type\<close>.\<close>

record jsfile =
  name :: string
  type :: string

text \<open>
  The component owns the flag \<open>isDragging\<close>. Its two effects on the outside are recorded
  in the state as well: \<open>selected\<close> lists the arguments of the calls of the
  \<open>onFileSelect\<close> prop, in order, and \<open>pickerOpened\<close> counts the calls of
  \<open>fileInputRef.current.click()\<close> that reach an enabled file input.
\<close>

record zone =
  isDragging :: bool
  selected :: "jsfile list"
  pickerOpened :: nat

definition zone0 :: zone where
  "zone0 = \<lparr>isDragging = False, selected = [], pickerOpened = 0\<rparr>"

text \<open>\<open>onFileSelect(file)\<close>.\<close>

definition onFileSelect :: "jsfile \<Rightarrow> zone \<Rightarrow> zone" where
  "onFileSelect f z = z\<lparr>selected := selected z @ [f]\<rparr>"

text \<open>Lines 82 to 89.\<close>

definition handleDragOver :: "zone \<Rightarrow> zone" where
  "handleDragOver z = z\<lparr>isDragging := True\<rparr>"

definition handleDragLeave :: "zone \<Rightarrow> zone" where
  "handleDragLeave z = z\<lparr>isDragging := False\<rparr>"

text \<open>
  Lines 91 to 98. The argument is \<open>e.dataTransfer.files\<close>; \<open>files[0]\<close> of an empty list is
  \<open>undefined\<close>, which the test \<open>file &&\<close> rejects.
\<close>

definition handleDrop :: "jsfile list \<Rightarrow> zone \<Rightarrow> zone" where
  "handleDrop files z =
     (let z1 = z\<lparr>isDragging := False\<rparr> in
      case files of
        [] \<Rightarrow> z1
      | f # _ \<Rightarrow> if startsWith (type f) ''image/'' then onFileSelect f z1 else z1)"

text \<open>Lines 100 to 105. The argument is \<open>e.target.files\<close>. The handler tests only that a
  file is there.\<close>

definition handleFileInput :: "jsfile list \<Rightarrow> zone \<Rightarrow> zone" where
  "handleFileInput files z =
     (case files of
        [] \<Rightarrow> z
      | f # _ \<Rightarrow> onFileSelect f z)"

text \<open>
  What the user can do with the rendered component (lines 113 to 169): drag over the
  zone, leave it, drop files on it, click the zone, click the button \<open>Choose File\<close>, and
  confirm a choice in the file dialog, which fires \<open>change\<close> on the file input.
\<close>

datatype interaction =
    DragOver
  | DragLeave
  | Drop "jsfile list"
  | ClickZone
  | ClickButton
  | PickFiles "jsfile list"

text \<open>
  The attributes the render gives the elements, from the prop \<open>isProcessing\<close>: the zone's
  class list holds \<open>pointer-events-none\<close> (line 118), and the file input (line 131) and
  the button (line 166) are \<open>disabled\<close>.
\<close>

record attrs =
  zonePointerEventsNone :: bool
  inputDisabled :: bool
  buttonDisabled :: bool

definition render_attrs :: "bool \<Rightarrow> attrs" where
  "render_attrs isProcessing =
     \<lparr>zonePointerEventsNone = isProcessing,
      inputDisabled = isProcessing,
      buttonDisabled = isProcessing\<rparr>"

text \<open>\<open>fileInputRef.current?.click()\<close>: a disabled input ignores the click.\<close>

definition inputClick :: "attrs \<Rightarrow> zone \<Rightarrow> zone" where
  "inputClick a z = (if inputDisabled a then z else z\<lparr>pickerOpened := Suc (pickerOpened z)\<rparr>)"

text \<open>
  Delivery of an interaction to the handlers. An element with \<open>pointer-events: none\<close> is
  never the target of a mouse or drag event, and neither are its descendants, which
  inherit the property; a disabled button receives no click and a disabled input fires
  no \<open>change\<close>. The zone's own click handler (line 117) tests \<open>!isProcessing\<close> once
  more; the handler of the button (lines 162 to 165) stops the propagation and clicks
  the input.
\<close>

definition interact :: "bool \<Rightarrow> interaction \<Rightarrow> zone \<Rightarrow> zone" where
  "interact isProcessing i z =
     (let a = render_attrs isProcessing in
      case i of
        DragOver \<Rightarrow> if zonePointerEventsNone a then z else handleDragOver z
      | DragLeave \<Rightarrow> if zonePointerEventsNone a then z else handleDragLeave z
      | Drop files \<Rightarrow> if zonePointerEventsNone a then z else handleDrop files z
      | ClickZone \<Rightarrow>
          if zonePointerEventsNone a then z
          else if \<not> isProcessing then inputClick a z else z
      | ClickButton \<Rightarrow>
          if zonePointerEventsNone a \<or> buttonDisabled a then z else inputClick a z
      | PickFiles files \<Rightarrow> if inputDisabled a then z else handleFileInput files z)"

text \<open>A session of the user with the component, the prop held fixed.\<close>

fun interacts :: "bool \<Rightarrow> interaction list \<Rightarrow> zone \<Rightarrow> zone" where
  "interacts isProcessing [] z = z"
| "interacts isProcessing (i # is) z = interacts isProcessing is (interact isProcessing i z)"

subsection \<open>The results view (lines 232 to 355)\<close>

text \<open>The payload of \<open>GET /api/results/{jobId}\<close>.\<close>

record issue =
  number :: int
  error :: string

record grading_result =
  total_grade :: string
  sections :: "issue list"
  pdfAnnotatedUrl :: string

text \<open>Lines 233 to 238: the four gradients, in the order of the tests.\<close>

definition getGradeColor :: "string \<Rightarrow> string" where
  "getGradeColor grade =
     (if startsWith grade ''A'' then ''linear-gradient(to bottom right, #10b981, #059669)''
      else if startsWith grade ''B'' then ''linear-gradient(to bottom right, #4A9FD8, #2E6FA8)''
      else if startsWith grade ''C'' then ''linear-gradient(to bottom right, #FFD966, #FFA500)''
      else ''linear-gradient(to bottom right, #ef4444, #dc2626)'')"














subsection \<open>The controller (lines 358 to 509)\<close>

datatype view = Upload | Processing | Results

text \<open>
  How a \<open>fetch\<close> followed by \<open>response.json()\<close> ends: the request is rejected (no
  network), the response is not \<open>ok\<close>, the body does not parse, or it parses to a value
  of the shape the backend's interface gives.
\<close>

datatype 'a fetched = Rejected | NotOk | BadBody | Ok 'a

text \<open>The body of \<open>GET /api/grade/{jobId}\<close>, under the names line 400 gives its fields.\<close>

record status_data =
  status :: string
  newProgress :: int
  newMessage :: string

datatype request = PostGrade jsfile | GetStatus string | GetResults string

text \<open>
  The five state variables of \<open>App\<close> (lines 359 to 363), and what the browser holds for
  it between two runs of its code:
  \<^item> \<open>uploads\<close>: the runs of \<open>handleFileSelect\<close> that wait at line 374;
  \<^item> \<open>intervals\<close>: the timers \<open>setInterval\<close> has started and \<open>clearInterval\<close> has not
    stopped, each with the job id its callback closes over; \<open>nextInterval\<close> is the handle
    the next \<open>setInterval\<close> returns;
  \<^item> \<open>statusFetches\<close>: the runs of the timer callback that wait at line 396, each with the
    \<open>interval\<close> and \<open>id\<close> of its closure;
  \<^item> \<open>resultsFetches\<close>: those that wait at line 407;
  \<^item> \<open>alerts\<close>: the messages shown by \<open>alert\<close>; \<open>requests\<close>: the requests sent.
\<close>

record app =
  currentStep :: view
  jobId :: "string option"
  progress :: int
  message :: string
  results :: "grading_result option"
  uploads :: "jsfile list"
  intervals :: "(nat \<times> string) list"
  nextInterval :: nat
  statusFetches :: "(nat \<times> string) list"
  resultsFetches :: "(nat \<times> string) list"
  alerts :: "string list"
  requests :: "request list"

definition app0 :: app where
  "app0 = \<lparr>currentStep = Upload, jobId = None, progress = 0, message = [],
           results = None, uploads = [], intervals = [], nextInterval = 0,
           statusFetches = [], resultsFetches = [], alerts = [], requests = []\<rparr>"

definition alert :: "string \<Rightarrow> app \<Rightarrow> app" where
  "alert msg s = s\<lparr>alerts := alerts s @ [msg]\<rparr>"

definition clearInterval :: "nat \<Rightarrow> app \<Rightarrow> app" where
  "clearInterval h s = s\<lparr>intervals := filter (\<lambda>p. fst p \<noteq> h) (intervals s)\<rparr>"

text \<open>Lines 367 to 377: \<open>handleFileSelect\<close> up to its first \<open>await\<close>.\<close>

definition handleFileSelect :: "jsfile \<Rightarrow> app \<Rightarrow> app" where
  "handleFileSelect f s =
     s\<lparr>currentStep := Processing, progress := 10, message := ''Uploading your proof...'',
       uploads := uploads s @ [f], requests := requests s @ [PostGrade f]\<rparr>"

text \<open>Lines 393 to 425: \<open>pollJobStatus\<close> starts a timer and returns.\<close>

definition pollJobStatus :: "string \<Rightarrow> app \<Rightarrow> app" where
  "pollJobStatus ident s =
     s\<lparr>intervals := intervals s @ [(nextInterval s, ident)],
       nextInterval := Suc (nextInterval s)\<rparr>"

text \<open>Lines 386 to 390: the \<open>catch\<close> of \<open>handleFileSelect\<close>. What \<open>console.error\<close> writes is
  left out, here and in the other \<open>catch\<close>.\<close>

definition upload_catch :: "app \<Rightarrow> app" where
  "upload_catch s =
     (alert ''Failed to upload file. Please try again.'' s)\<lparr>currentStep := Upload\<rparr>"

text \<open>Lines 379 to 390: \<open>handleFileSelect\<close> after the response to the upload.\<close>

definition upload_resume :: "string fetched \<Rightarrow> app \<Rightarrow> app" where
  "upload_resume out s =
     (case out of
        Ok newJobId \<Rightarrow> pollJobStatus newJobId (s\<lparr>jobId := Some newJobId\<rparr>)
      | _ \<Rightarrow> upload_catch s)"

text \<open>Line 396: the timer callback up to its first \<open>await\<close>.\<close>

definition tick :: "nat \<Rightarrow> string \<Rightarrow> app \<Rightarrow> app" where
  "tick h ident s =
     s\<lparr>statusFetches := statusFetches s @ [(h, ident)],
       requests := requests s @ [GetStatus ident]\<rparr>"

text \<open>Lines 418 to 423: the \<open>catch\<close> of the timer callback.\<close>

definition poll_catch :: "nat \<Rightarrow> app \<Rightarrow> app" where
  "poll_catch h s =
     (alert ''Failed to check status. Please try again.'' (clearInterval h s))
       \<lparr>currentStep := Upload\<rparr>"

text \<open>Lines 397 to 417: the callback after the response to the status request, up to
  the request for the results.\<close>

definition status_resume :: "nat \<Rightarrow> string \<Rightarrow> status_data fetched \<Rightarrow> app \<Rightarrow> app" where
  "status_resume h ident out s =
     (case out of
        Ok statusData \<Rightarrow>
          (let s1 = s\<lparr>progress := newProgress statusData, message := newMessage statusData\<rparr> in
           if status statusData = ''done'' then
             (clearInterval h s1)\<lparr>resultsFetches := resultsFetches s1 @ [(h, ident)],
                                  requests := requests s1 @ [GetResults ident]\<rparr>
           else if status statusData = ''failed'' then
             (alert ''Processing failed. Please try again.'' (clearInterval h s1))
               \<lparr>currentStep := Upload\<rparr>
           else s1)
      | _ \<Rightarrow> poll_catch h s)"

text \<open>Lines 408 to 412 and the \<open>catch\<close>: the callback after the response to the request
  for the results.\<close>

definition results_resume :: "nat \<Rightarrow> grading_result fetched \<Rightarrow> app \<Rightarrow> app" where
  "results_resume h out s =
     (case out of
        Ok resultsData \<Rightarrow> s\<lparr>results := Some resultsData, currentStep := Results\<rparr>
      | _ \<Rightarrow> poll_catch h s)"

text \<open>Lines 427 to 433.\<close>

definition handleReset :: "app \<Rightarrow> app" where
  "handleReset s =
     s\<lparr>currentStep := Upload, jobId := None, progress := 0, message := [], results := None\<rparr>"

text \<open>
  What happens to the running page, one run of its code at a time: the upload zone hands
  over a file, a pending request ends, a timer fires, the user clicks \<open>Grade Another\<close>.
  The requests that wait are numbered by their position in the lists of the state. A
  timer fires whenever it is active, and requests end in any order: nothing in the source
  holds a tick back while an earlier request is on its way. Time itself is not modelled,
  and neither are the exit animations: a view is gone as soon as the step changes.
\<close>

datatype event =
    SelectFile jsfile
  | UploadDone nat "string fetched"
  | Tick nat
  | StatusDone nat "status_data fetched"
  | ResultsDone nat "grading_result fetched"
  | Reset

definition remove_nth :: "nat \<Rightarrow> 'a list \<Rightarrow> 'a list" where
  "remove_nth k xs = take k xs @ drop (Suc k) xs"

text \<open>
  One event on a state; \<open>None\<close> when the page offers no such event there. The render
  (lines 442 to 486) mounts the upload zone only in the step \<open>upload\<close> and the results
  view, with its button, only in the step \<open>results\<close> with \<open>results\<close> set.
\<close>

fun step :: "event \<Rightarrow> app \<Rightarrow> app option" where
  "step (SelectFile f) s =
     (if currentStep s = Upload then Some (handleFileSelect f s) else None)"
| "step (UploadDone k out) s =
     (if k < length (uploads s)
      then Some (upload_resume out (s\<lparr>uploads := remove_nth k (uploads s)\<rparr>))
      else None)"
| "step (Tick h) s =
     (case map_of (intervals s) h of
        Some ident \<Rightarrow> Some (tick h ident s)
      | None \<Rightarrow> None)"
| "step (StatusDone k out) s =
     (if k < length (statusFetches s)
      then Some (status_resume (fst (statusFetches s ! k)) (snd (statusFetches s ! k)) out
                  (s\<lparr>statusFetches := remove_nth k (statusFetches s)\<rparr>))
      else None)"
| "step (ResultsDone k out) s =
     (if k < length (resultsFetches s)
      then Some (results_resume (fst (resultsFetches s ! k)) out
                  (s\<lparr>resultsFetches := remove_nth k (resultsFetches s)\<rparr>))
      else None)"
| "step Reset s =
     (if currentStep s = Results \<and> results s \<noteq> None then Some (handleReset s) else None)"

fun run :: "event list \<Rightarrow> app \<Rightarrow> app option" where
  "run [] s = Some s"
| "run (e # es) s = (case step e s of None \<Rightarrow> None | Some s' \<Rightarrow> run es s')"

subsection \<open>Sample inputs\<close>

definition proof_png :: jsfile where
  "proof_png = \<lparr>name = ''proof.png'', type = ''image/png''\<rparr>"

definition notes_pdf :: jsfile where
  "notes_pdf = \<lparr>name = ''notes.pdf'', type = ''application/pdf''\<rparr>"

definition graded :: grading_result where
  "graded = \<lparr>total_grade = ''B+'',
             sections = [\<lparr>number = 1, error = ''missing base case''\<rparr>,
                         \<lparr>number = 2, error = ''circular step''\<rparr>],
             pdfAnnotatedUrl = ''/static/annotated/x.jpg''\<rparr>"


definition status_done :: status_data where
  "status_done = \<lparr>status = ''done'', newProgress = 100, newMessage = ''Grading complete''\<rparr>"

definition status_failed :: status_data where
  "status_failed = \<lparr>status = ''failed'', newProgress = 55, newMessage = ''OCR crashed''\<rparr>"

definition status_running :: status_data where
  "status_running = \<lparr>status = ''processing'', newProgress = 30, newMessage = ''Reading lines''\<rparr>"

text \<open>Runs of the page: an upload that is accepted as job 42; two ticks of its timer
  before any answer; the whole way to the results; a poll that is rejected, and one that
  reports \<open>failed\<close>; the second of two overlapping polls answering \<open>done\<close> after the
  first was rejected, or after the first has led to the results; a second job started
  while a poll of the first is still on its way.\<close>

definition submitted :: "event list" where
  "submitted = [SelectFile proof_png, UploadDone 0 (Ok ''42'')]"

definition two_ticks :: "event list" where
  "two_ticks = submitted @ [Tick 0, Tick 0]"

definition happy :: "event list" where
  "happy = submitted @ [Tick 0, StatusDone 0 (Ok status_done), ResultsDone 0 (Ok graded)]"

definition poll_error :: "event list" where
  "poll_error = submitted @ [Tick 0, StatusDone 0 Rejected]"

definition failed_poll :: "event list" where
  "failed_poll = submitted @ [Tick 0, StatusDone 0 (Ok status_failed)]"

definition late_done :: "event list" where
  "late_done = two_ticks @ [StatusDone 0 Rejected, StatusDone 0 (Ok status_done)]"

definition late_results :: "event list" where
  "late_results = two_ticks @ [StatusDone 0 (Ok status_done), ResultsDone 0 (Ok graded)]"

definition second_job :: "event list" where
  "second_job = two_ticks @ [StatusDone 0 Rejected, SelectFile proof_png, UploadDone 0 (Ok ''43'')]"

text \<open>The state a run from the initial state ends in.\<close>

definition after :: "event list \<Rightarrow> app" where
  "after es = (case run es app0 of Some s \<Rightarrow> s | None \<Rightarrow> app0)"

subsection \<open>Classes of responses\<close>

text \<open>A request that fails: rejected, not \<open>ok\<close>, or with a body that does not parse.\<close>

definition failed_fetch :: "'a fetched \<Rightarrow> bool" where
  "failed_fetch out = (case out of Ok _ \<Rightarrow> False | _ \<Rightarrow> True)"

text \<open>What makes the timer callback call \<open>clearInterval\<close>: a failed status request, or
  the status \<open>done\<close> or \<open>failed\<close>.\<close>

definition observes_end :: "status_data fetched \<Rightarrow> bool" where
  "observes_end out =
     (case out of Ok statusData \<Rightarrow> status statusData = ''done'' \<or> status statusData = ''failed''
      | _ \<Rightarrow> True)"

subsection \<open>Invariants of the running page\<close>

text \<open>In the step \<open>results\<close> there are results.\<close>

definition inv_results :: "app \<Rightarrow> bool" where
  "inv_results s = (currentStep s = Results \<longrightarrow> results s \<noteq> None)"

text \<open>In the step \<open>processing\<close> an upload is on its way or a job id is stored.\<close>

definition inv_job :: "app \<Rightarrow> bool" where
  "inv_job s = (currentStep s = Processing \<longrightarrow> uploads s \<noteq> [] \<or> jobId s \<noteq> None)"


text \<open>Every timer handle in use is older than the next one \<open>setInterval\<close> returns.\<close>

definition below :: "nat \<Rightarrow> (nat \<times> string) list \<Rightarrow> bool" where
  "below n xs = (\<forall>p \<in> set xs. fst p < n)"

definition inv_fresh :: "app \<Rightarrow> bool" where
  "inv_fresh s = (below (nextInterval s) (intervals s) \<and>
                  below (nextInterval s) (statusFetches s) \<and>
                  below (nextInterval s) (resultsFetches s))"

text \<open>A timer that was started and has been cleared; the results are requested only by
  callbacks whose timer is cleared.\<close>

definition stopped :: "nat \<Rightarrow> app \<Rightarrow> bool" where
  "stopped h s = (h < nextInterval s \<and> h \<notin> fst ` set (intervals s))"

definition inv_stopped :: "app \<Rightarrow> bool" where
  "inv_stopped s = (\<forall>p \<in> set (resultsFetches s). stopped (fst p) s)"

section \<open>Properties of the upload zone\<close>

lemma startsWith_Cons: "startsWith (c # cs) [d] = (c = d)"
  by (simp add: startsWith_def)

lemma startsWith_Nil: "startsWith [] [d] = False"
  by (simp add: startsWith_def)

lemma handleDrop_selected:
  "selected (handleDrop files z) =
     (case files of [] \<Rightarrow> selected z
      | f # _ \<Rightarrow> if startsWith (type f) ''image/'' then selected z @ [f] else selected z)"
  by (simp add: handleDrop_def onFileSelect_def Let_def split: list.splits)

lemma handleFileInput_selected:
  "selected (handleFileInput files z) =
     (case files of [] \<Rightarrow> selected z | f # _ \<Rightarrow> selected z @ [f])"
  by (simp add: handleFileInput_def onFileSelect_def split: list.splits)

lemma interact_processing_selected: "selected (interact True i z) = selected z"
  by (cases i) (simp_all add: interact_def render_attrs_def Let_def)

text \<open>
  The drop handler does what the contract of the component says: a dropped file whose
  type does not begin with \<open>image/\<close> is ignored, whatever the prop.
\<close>

lemma drop_rejects_non_image:
  "\<not> startsWith (type f) ''image/'' \<Longrightarrow> selected (interact b (Drop (f # fs)) z) = selected z"
  by (simp add: interact_def render_attrs_def Let_def handleDrop_selected)

text \<open>
  Claim C1 says that no file whose MIME type does not begin with \<open>image/\<close> ever reaches
  \<open>onFileSelect\<close>, dropped or picked. The drop handler tests the type; the handler of the
  file input does not, and the \<open>accept\<close> attribute of the input only presets the filter
  of the file dialog. Here the code is run on a PDF chosen in the dialog of an enabled
  zone: \<open>onFileSelect\<close> is called with it.
\<close>

theorem picker_passes_non_image:
  "\<not> startsWith (type notes_pdf) ''image/'' \<and>
   selected (interact False (PickFiles [notes_pdf]) zone0) = [notes_pdf]"
  by (simp add: interact_def render_attrs_def handleFileInput_selected zone0_def
      notes_pdf_def startsWith_def)

text \<open>
  Claim C4: while \<open>isProcessing\<close> is true, no interaction of the user with the zone
  (drag, drop, click on the zone, click on the button, choice in the file dialog), and
  no sequence of them, adds a call of \<open>onFileSelect\<close>. The interaction itself is
  disabled: the two handlers that call \<open>onFileSelect\<close> do not look at the prop, and once
  run on an image they pass it on.
\<close>

theorem processing_blocks_selection:
  "selected (interacts True acts z) = selected z \<and>
   (startsWith (type f) ''image/'' \<longrightarrow> selected (handleDrop (f # fs) z) = selected z @ [f]) \<and>
   selected (handleFileInput (f # fs) z) = selected z @ [f]"
proof -
  have "selected (interacts True acts z) = selected z"
    by (induction acts arbitrary: z) (simp_all add: interact_processing_selected)
  then show ?thesis
    by (simp add: handleDrop_selected handleFileInput_selected)
qed

theorem processing_blocks_selection_witness:
  "startsWith (type proof_png) ''image/'' \<and>
   selected (interacts True [Drop [proof_png], ClickZone, ClickButton, PickFiles [proof_png]]
              zone0) = [] \<and>
   selected (handleDrop [proof_png] zone0) = [proof_png]"
  using processing_blocks_selection
    [where acts = "[Drop [proof_png], ClickZone, ClickButton, PickFiles [proof_png]]"
       and z = zone0 and f = proof_png and fs = "[]"]
  by (simp add: proof_png_def startsWith_def zone0_def)

section \<open>Properties of the results view\<close>

text \<open>
  Claim C8: the colour of a grade depends on its first character only. Every grade that
  begins with \<open>A\<close> gets the first gradient, with \<open>B\<close> the second, with \<open>C\<close> the third;
  every other string, the empty one too, gets the fourth.
\<close>

theorem getGradeColor_buckets:
  "getGradeColor (CHR ''A'' # rest) = ''linear-gradient(to bottom right, #10b981, #059669)'' \<and>
   getGradeColor (CHR ''B'' # rest) = ''linear-gradient(to bottom right, #4A9FD8, #2E6FA8)'' \<and>
   getGradeColor (CHR ''C'' # rest) = ''linear-gradient(to bottom right, #FFD966, #FFA500)'' \<and>
   (c \<noteq> CHR ''A'' \<and> c \<noteq> CHR ''B'' \<and> c \<noteq> CHR ''C'' \<longrightarrow>
      getGradeColor (c # rest) = ''linear-gradient(to bottom right, #ef4444, #dc2626)'') \<and>
   getGradeColor [] = ''linear-gradient(to bottom right, #ef4444, #dc2626)''"
  by (simp add: getGradeColor_def startsWith_Cons startsWith_Nil)

theorem getGradeColor_buckets_witness:
  "getGradeColor ''A-'' = getGradeColor ''A+'' \<and> getGradeColor ''B'' = getGradeColor ''B-''
   \<and> getGradeColor ''C+'' = ''linear-gradient(to bottom right, #FFD966, #FFA500)''
   \<and> CHR ''F'' \<noteq> CHR ''A'' \<and> CHR ''F'' \<noteq> CHR ''B'' \<and> CHR ''F'' \<noteq> CHR ''C''
   \<and> getGradeColor ''F'' = ''linear-gradient(to bottom right, #ef4444, #dc2626)''"
  using getGradeColor_buckets [where rest = "''-''" and c = "CHR ''F''"]
        getGradeColor_buckets [where rest = "''+''" and c = "CHR ''F''"]
        getGradeColor_buckets [where rest = "[]" and c = "CHR ''F''"]
  by simp




section \<open>Properties of the controller\<close>

lemmas handler_defs =
  handleFileSelect_def pollJobStatus_def upload_catch_def upload_resume_def tick_def
  poll_catch_def status_resume_def results_resume_def handleReset_def alert_def
  clearInterval_def

lemmas model_defs = app0_def remove_nth_def handler_defs

subsection \<open>Runs and invariants\<close>


lemma run_invariant:
  assumes "run es s0 = Some s" and "P s0"
    and "\<And>e s s'. P s \<Longrightarrow> step e s = Some s' \<Longrightarrow> P s'"
  shows "P s"
  using assms(1,2)
proof (induction es arbitrary: s0)
  case Nil
  then show ?case by simp
next
  case (Cons e es)
  then obtain s1 where s1: "step e s0 = Some s1" and r: "run es s1 = Some s"
    by (auto split: option.splits)
  from assms(3)[OF Cons.prems(2) s1] have "P s1" .
  from Cons.IH[OF r this] show ?case .
qed

lemma inv_results_step: "inv_results s \<Longrightarrow> step e s = Some s' \<Longrightarrow> inv_results s'"
  by (cases e)
     (auto simp: inv_results_def handler_defs Let_def split: if_splits fetched.splits option.splits)

lemma inv_job_step: "inv_job s \<Longrightarrow> step e s = Some s' \<Longrightarrow> inv_job s'"
  by (cases e)
     (auto simp: inv_job_def handler_defs Let_def split: if_splits fetched.splits option.splits)


lemma set_remove_nth: "set (remove_nth k xs) \<subseteq> set xs"
proof -
  have "set (take k xs) \<subseteq> set xs" by (rule set_take_subset)
  moreover have "set (drop (Suc k) xs) \<subseteq> set xs" by (rule set_drop_subset)
  ultimately show ?thesis by (simp add: remove_nth_def)
qed

lemma in_remove_nth: "p \<in> set (remove_nth k xs) \<Longrightarrow> p \<in> set xs"
  using set_remove_nth[of k xs] by blast

lemma below_remove_nth: "below n xs \<Longrightarrow> below n (remove_nth k xs)"
  using set_remove_nth[of k xs] by (auto simp: below_def)

lemma below_nth: "below n xs \<Longrightarrow> k < length xs \<Longrightarrow> fst (xs ! k) < n"
  by (simp add: below_def)

lemma below_map_of: "below n xs \<Longrightarrow> map_of xs h = Some i \<Longrightarrow> h < n"
proof -
  assume b: "below n xs" and m: "map_of xs h = Some i"
  from m have "(h, i) \<in> set xs" by (rule map_of_SomeD)
  with b have "fst (h, i) < n" unfolding below_def by blast
  then show ?thesis by simp
qed

lemma below_snoc: "below n (xs @ [p]) = (below n xs \<and> fst p < n)"
  by (auto simp: below_def)

lemma below_filter: "below n xs \<Longrightarrow> below n (filter Q xs)"
  by (simp add: below_def)

lemma below_Suc: "below n xs \<Longrightarrow> below (Suc n) xs"
  by (auto simp: below_def less_Suc_eq)

lemma inv_fresh_step: "inv_fresh s \<Longrightarrow> step e s = Some s' \<Longrightarrow> inv_fresh s'"
proof (cases e)
  case (SelectFile f)
  assume "inv_fresh s" "step e s = Some s'"
  with SelectFile show ?thesis
    by (auto simp: inv_fresh_def handler_defs split: if_splits)
next
  case (UploadDone k out)
  assume "inv_fresh s" "step e s = Some s'"
  with UploadDone show ?thesis
    by (cases out) (auto simp: inv_fresh_def handler_defs below_snoc below_Suc split: if_splits)
next
  case (Tick h)
  assume "inv_fresh s" "step e s = Some s'"
  with Tick show ?thesis
    by (auto simp: inv_fresh_def handler_defs below_snoc dest: below_map_of split: option.splits)
next
  case (StatusDone k out)
  assume "inv_fresh s" "step e s = Some s'"
  with StatusDone show ?thesis
    by (cases out)
       (auto simp: inv_fresh_def handler_defs Let_def below_snoc
          intro: below_remove_nth below_filter below_nth split: if_splits)
next
  case (ResultsDone k out)
  assume "inv_fresh s" "step e s = Some s'"
  with ResultsDone show ?thesis
    by (cases out)
       (auto simp: inv_fresh_def handler_defs intro: below_remove_nth below_filter
          split: if_splits)
next
  case Reset
  assume "inv_fresh s" "step e s = Some s'"
  with Reset show ?thesis
    by (auto simp: inv_fresh_def handler_defs split: if_splits)
qed

text \<open>A timer that is stopped stays stopped: \<open>setInterval\<close> never hands out its handle
  again.\<close>

lemma stopped_step: "stopped h s \<Longrightarrow> step e s = Some s' \<Longrightarrow> stopped h s'"
proof (cases e)
  case (UploadDone k out)
  assume "stopped h s" "step e s = Some s'"
  with UploadDone show ?thesis
    by (cases out) (auto simp: stopped_def handler_defs split: if_splits)
next
  case (StatusDone k out)
  assume "stopped h s" "step e s = Some s'"
  with StatusDone show ?thesis
    by (cases out) (auto simp: stopped_def handler_defs Let_def split: if_splits)
next
  case (ResultsDone k out)
  assume "stopped h s" "step e s = Some s'"
  with ResultsDone show ?thesis
    by (cases out) (auto simp: stopped_def handler_defs split: if_splits)
qed (auto simp: stopped_def handler_defs split: if_splits option.splits)

lemma stopped_run: "run es s = Some s' \<Longrightarrow> stopped h s \<Longrightarrow> stopped h s'"
  by (rule run_invariant[where P = "stopped h"]) (auto intro: stopped_step)

lemma stopped_no_tick: "stopped h s \<Longrightarrow> step (Tick h) s = None"
  by (simp add: stopped_def map_of_eq_None_iff[symmetric])

lemma status_end_stops:
  assumes "inv_fresh s" and "step (StatusDone k out) s = Some s'" and "observes_end out"
  shows "stopped (fst (statusFetches s ! k)) s'"
proof -
  from assms(2) have k: "k < length (statusFetches s)" by (simp split: if_splits)
  with assms(1) have "fst (statusFetches s ! k) < nextInterval s"
    by (simp add: inv_fresh_def below_nth)
  with assms(2,3) k show ?thesis
    by (cases out) (auto simp: stopped_def observes_end_def handler_defs Let_def)
qed

lemma inv_stopped_step:
  assumes "inv_fresh s" and "inv_stopped s" and "step e s = Some s'"
  shows "inv_stopped s'"
proof -
  have old: "\<And>p. p \<in> set (resultsFetches s) \<Longrightarrow> stopped (fst p) s'"
    using assms(2,3) by (auto simp: inv_stopped_def intro: stopped_step)
  show ?thesis
  proof (cases e)
    case (StatusDone k out)
    have "\<And>p. p \<in> set (resultsFetches s') \<Longrightarrow>
            p \<in> set (resultsFetches s) \<or> (observes_end out \<and> p = statusFetches s ! k)"
      using assms(3) StatusDone
      by (cases out) (auto simp: handler_defs Let_def observes_end_def split: if_splits)
    with old status_end_stops[OF assms(1)] assms(3) StatusDone show ?thesis
      unfolding inv_stopped_def by blast
  next
    case (ResultsDone k out)
    have "\<And>p. p \<in> set (resultsFetches s') \<Longrightarrow> p \<in> set (resultsFetches s)"
      using assms(3) ResultsDone
      by (cases out) (auto simp: handler_defs dest: in_remove_nth split: if_splits)
    with old show ?thesis unfolding inv_stopped_def by blast
  next
    case (UploadDone k out)
    have "resultsFetches s' = resultsFetches s"
      using assms(3) UploadDone by (cases out) (auto simp: handler_defs split: if_splits)
    with old show ?thesis unfolding inv_stopped_def by simp
  next
    case (SelectFile f)
    have "resultsFetches s' = resultsFetches s"
      using assms(3) SelectFile by (auto simp: handler_defs split: if_splits)
    with old show ?thesis unfolding inv_stopped_def by simp
  next
    case (Tick h)
    have "resultsFetches s' = resultsFetches s"
      using assms(3) Tick by (auto simp: handler_defs split: option.splits)
    with old show ?thesis unfolding inv_stopped_def by simp
  next
    case Reset
    have "resultsFetches s' = resultsFetches s"
      using assms(3) Reset by (auto simp: handler_defs split: if_splits)
    with old show ?thesis unfolding inv_stopped_def by simp
  qed
qed

lemma reachable_stopped:
  assumes "run es app0 = Some s"
  shows "inv_fresh s \<and> inv_stopped s"
proof (rule run_invariant[OF assms, where P = "\<lambda>s. inv_fresh s \<and> inv_stopped s"])
  show "inv_fresh app0 \<and> inv_stopped app0"
    by (simp add: inv_fresh_def inv_stopped_def below_def app0_def)
  show "\<And>e s s'. inv_fresh s \<and> inv_stopped s \<Longrightarrow> step e s = Some s' \<Longrightarrow>
          inv_fresh s' \<and> inv_stopped s'"
    using inv_fresh_step inv_stopped_step by blast
qed

lemma reachable_results:
  assumes "run es app0 = Some s"
  shows "inv_results s"
proof (rule run_invariant[OF assms, where P = inv_results])
  show "inv_results app0" by (simp add: inv_results_def app0_def)
  show "\<And>e s s'. inv_results s \<Longrightarrow> step e s = Some s' \<Longrightarrow> inv_results s'"
    by (rule inv_results_step)
qed

lemma reachable_job:
  assumes "run es app0 = Some s"
  shows "inv_job s"
proof (rule run_invariant[OF assms, where P = inv_job])
  show "inv_job app0" by (simp add: inv_job_def app0_def)
  show "\<And>e s s'. inv_job s \<Longrightarrow> step e s = Some s' \<Longrightarrow> inv_job s'"
    by (rule inv_job_step)
qed


subsection \<open>What one event does\<close>

lemma map_of_filter_out: "map_of (filter (\<lambda>p. fst p \<noteq> h) xs) h = None"
  by (induction xs) auto

lemma map_of_filter_other:
  "h' \<noteq> h \<Longrightarrow> map_of (filter (\<lambda>p. fst p \<noteq> h) xs) h' = map_of xs h'"
  by (induction xs) auto

lemma upload_failure_step:
  "failed_fetch out \<Longrightarrow> step (UploadDone k out) s = Some s' \<Longrightarrow>
   s' = s\<lparr>uploads := remove_nth k (uploads s),
          alerts := alerts s @ [''Failed to upload file. Please try again.''],
          currentStep := Upload\<rparr>"
  by (cases out) (auto simp: failed_fetch_def handler_defs split: if_splits)

lemma status_failure_step:
  "failed_fetch out \<Longrightarrow> step (StatusDone k out) s = Some s' \<Longrightarrow>
   s' = s\<lparr>statusFetches := remove_nth k (statusFetches s),
          intervals := filter (\<lambda>p. fst p \<noteq> fst (statusFetches s ! k)) (intervals s),
          alerts := alerts s @ [''Failed to check status. Please try again.''],
          currentStep := Upload\<rparr>"
  by (cases out) (auto simp: failed_fetch_def handler_defs split: if_splits)

lemma status_failed_step:
  "status statusData = ''failed'' \<Longrightarrow> step (StatusDone k (Ok statusData)) s = Some s' \<Longrightarrow>
   s' = s\<lparr>statusFetches := remove_nth k (statusFetches s),
          progress := newProgress statusData, message := newMessage statusData,
          intervals := filter (\<lambda>p. fst p \<noteq> fst (statusFetches s ! k)) (intervals s),
          alerts := alerts s @ [''Processing failed. Please try again.''],
          currentStep := Upload\<rparr>"
  by (auto simp: handler_defs Let_def split: if_splits)

lemma results_failure_step:
  "failed_fetch out \<Longrightarrow> step (ResultsDone k out) s = Some s' \<Longrightarrow>
   s' = s\<lparr>resultsFetches := remove_nth k (resultsFetches s),
          intervals := filter (\<lambda>p. fst p \<noteq> fst (resultsFetches s ! k)) (intervals s),
          alerts := alerts s @ [''Failed to check status. Please try again.''],
          currentStep := Upload\<rparr>"
  by (cases out) (auto simp: failed_fetch_def handler_defs split: if_splits)

lemma only_reset_discards:
  "step e s = Some s' \<Longrightarrow> e \<noteq> Reset \<Longrightarrow>
   (jobId s \<noteq> None \<longrightarrow> jobId s' \<noteq> None) \<and> (results s \<noteq> None \<longrightarrow> results s' \<noteq> None)"
proof (cases e)
  case (UploadDone k out)
  assume "step e s = Some s'"
  with UploadDone show ?thesis by (cases out) (auto simp: handler_defs split: if_splits)
next
  case (StatusDone k out)
  assume "step e s = Some s'"
  with StatusDone show ?thesis
    by (cases out) (auto simp: handler_defs Let_def split: if_splits)
next
  case (ResultsDone k out)
  assume "step e s = Some s'"
  with ResultsDone show ?thesis by (cases out) (auto simp: handler_defs split: if_splits)
qed (auto simp: handler_defs split: if_splits option.splits)

lemma view_change_by_status:
  "step (StatusDone k out) s = Some s' \<Longrightarrow> currentStep s' \<noteq> currentStep s \<Longrightarrow>
   observes_end out"
  by (cases out) (auto simp: observes_end_def handler_defs Let_def split: if_splits)

lemma other_timers_kept:
  "step (StatusDone k out) s = Some s' \<Longrightarrow> h \<noteq> fst (statusFetches s ! k) \<Longrightarrow>
   map_of (intervals s') h = map_of (intervals s) h"
  by (cases out) (auto simp: handler_defs Let_def map_of_filter_other split: if_splits)





subsection \<open>Job and results against the view state\<close>

text \<open>
  Claim C2 says that in every reachable state \<open>jobId\<close> is set exactly in the step
  \<open>processing\<close> and \<open>results\<close> exactly in the step \<open>results\<close>, the job being discarded by
  every failure. It fails on the code: \<open>handleFileSelect\<close> enters \<open>processing\<close> before the
  upload is answered, so that \<open>jobId\<close> is still \<open>null\<close> there; and nothing but
  \<open>handleReset\<close> ever sets \<open>jobId\<close> back, so that it is still set in \<open>upload\<close> after a
  failed poll and in \<open>results\<close> after a successful one.
\<close>

theorem job_iff_processing_counterexample:
  "map_option currentStep (run [SelectFile proof_png] app0) = Some Processing \<and>
   map_option jobId (run [SelectFile proof_png] app0) = Some None \<and>
   map_option currentStep (run poll_error app0) = Some Upload \<and>
   map_option jobId (run poll_error app0) = Some (Some ''42'') \<and>
   map_option currentStep (run happy app0) = Some Results \<and>
   map_option jobId (run happy app0) = Some (Some ''42'')"
  by (simp add: submitted_def happy_def poll_error_def status_done_def model_defs)

text \<open>
  Claim C2, amended: in every reachable state the results are set whenever the step is
  \<open>results\<close>, and \<open>jobId\<close> is set whenever the step is \<open>processing\<close> and no upload is
  waiting for its answer; in the step \<open>results\<close> the reset is offered, and it sets both
  \<open>jobId\<close> and \<open>results\<close> to \<open>null\<close> and the step to \<open>upload\<close>; no other event, and so
  no failure, sets a job id or results back to \<open>null\<close>.
\<close>

theorem job_and_result_presence:
  assumes "run es app0 = Some s"
  shows "(currentStep s = Results \<longrightarrow> results s \<noteq> None) \<and>
         (currentStep s = Processing \<and> uploads s = [] \<longrightarrow> jobId s \<noteq> None) \<and>
         (currentStep s = Results \<longrightarrow>
            step Reset s = Some (handleReset s) \<and> currentStep (handleReset s) = Upload \<and>
            jobId (handleReset s) = None \<and> results (handleReset s) = None) \<and>
         (step e s = Some s' \<and> e \<noteq> Reset \<longrightarrow>
            (jobId s \<noteq> None \<longrightarrow> jobId s' \<noteq> None) \<and>
            (results s \<noteq> None \<longrightarrow> results s' \<noteq> None))"
proof -
  from reachable_results[OF assms] have r: "currentStep s = Results \<longrightarrow> results s \<noteq> None"
    by (simp add: inv_results_def)
  from reachable_job[OF assms]
  have j: "currentStep s = Processing \<and> uploads s = [] \<longrightarrow> jobId s \<noteq> None"
    by (auto simp: inv_job_def)
  have k: "step e s = Some s' \<and> e \<noteq> Reset \<longrightarrow>
            (jobId s \<noteq> None \<longrightarrow> jobId s' \<noteq> None) \<and>
            (results s \<noteq> None \<longrightarrow> results s' \<noteq> None)"
    using only_reset_discards[of e s s'] by blast
  from r j k show ?thesis by (simp add: handleReset_def)
qed

theorem job_and_result_presence_witness:
  "run happy app0 = Some (after happy) \<and> currentStep (after happy) = Results \<and>
   results (after happy) \<noteq> None \<and>
   step Reset (after happy) = Some (handleReset (after happy)) \<and>
   jobId (handleReset (after happy)) = None \<and>
   run submitted app0 = Some (after submitted) \<and> currentStep (after submitted) = Processing \<and>
   uploads (after submitted) = [] \<and> jobId (after submitted) \<noteq> None \<and>
   run late_results app0 = Some (after late_results) \<and>
   step (StatusDone 0 (Ok status_failed)) (after late_results)
     = Some (after (late_results @ [StatusDone 0 (Ok status_failed)])) \<and>
   jobId (after late_results) \<noteq> None \<and> results (after late_results) \<noteq> None \<and>
   jobId (after (late_results @ [StatusDone 0 (Ok status_failed)])) \<noteq> None \<and>
   results (after (late_results @ [StatusDone 0 (Ok status_failed)])) \<noteq> None"
proof -
  have a: "run happy app0 = Some (after happy)" "currentStep (after happy) = Results"
    by (simp_all add: after_def submitted_def two_ticks_def happy_def late_results_def
        status_done_def status_failed_def model_defs)
  have b: "run submitted app0 = Some (after submitted)"
    "currentStep (after submitted) = Processing" "uploads (after submitted) = []"
    by (simp_all add: after_def submitted_def two_ticks_def happy_def late_results_def
        status_done_def status_failed_def model_defs)
  have c: "run late_results app0 = Some (after late_results)"
    "step (StatusDone 0 (Ok status_failed)) (after late_results)
       = Some (after (late_results @ [StatusDone 0 (Ok status_failed)]))"
    "jobId (after late_results) \<noteq> None" "results (after late_results) \<noteq> None"
    "StatusDone 0 (Ok status_failed) \<noteq> Reset"
    by (simp_all add: after_def submitted_def two_ticks_def happy_def late_results_def
        status_done_def status_failed_def model_defs)
  from job_and_result_presence[OF a(1), THEN conjunct1] a
  have 1: "results (after happy) \<noteq> None" by simp
  from job_and_result_presence[OF a(1), THEN conjunct2, THEN conjunct2, THEN conjunct1] a
  have 2: "step Reset (after happy) = Some (handleReset (after happy))"
    "jobId (handleReset (after happy)) = None"
    by simp_all
  from job_and_result_presence[OF b(1), THEN conjunct2, THEN conjunct1] b
  have 3: "jobId (after submitted) \<noteq> None" by simp
  from job_and_result_presence[OF c(1), where e = "StatusDone 0 (Ok status_failed)"
         and s' = "after (late_results @ [StatusDone 0 (Ok status_failed)])",
         THEN conjunct2, THEN conjunct2, THEN conjunct2] c
  have 4: "jobId (after (late_results @ [StatusDone 0 (Ok status_failed)])) \<noteq> None"
    "results (after (late_results @ [StatusDone 0 (Ok status_failed)])) \<noteq> None"
    by blast+
  from 1 2 3 4 a b c show ?thesis by simp
qed

subsection \<open>Overlapping polls\<close>




subsection \<open>The view-state machine\<close>




subsection \<open>Failures\<close>

text \<open>
  Claim C6 says that each of the four classes of error raises an alert, returns the view
  to \<open>upload\<close> and discards the job in flight, with no retry. The job is not discarded:
  after a rejected poll \<open>jobId\<close> still holds 42, the other status request of that job is
  still on its way, and when it reports \<open>done\<close> the results of job 42 are requested.
\<close>

theorem failure_keeps_job_counterexample:
  "map_option currentStep (run (two_ticks @ [StatusDone 0 Rejected]) app0) = Some Upload \<and>
   map_option jobId (run (two_ticks @ [StatusDone 0 Rejected]) app0) = Some (Some ''42'') \<and>
   map_option statusFetches (run (two_ticks @ [StatusDone 0 Rejected]) app0)
     = Some [(0, ''42'')] \<and>
   map_option requests (run late_done app0)
     = Some [PostGrade proof_png, GetStatus ''42'', GetStatus ''42'', GetResults ''42'']"
  by (simp add: submitted_def two_ticks_def late_done_def status_done_def model_defs)

text \<open>
  Claim C6, amended: a failed upload, a failed status request, the status \<open>failed\<close> and a
  failed request for the results each raise one alert and set the step \<open>upload\<close>,
  whatever the state; none sends a request or starts a timer, and the three that belong
  to a polling loop leave its timer cleared. The alert is \<open>Failed to upload file\<close> for
  the upload, \<open>Processing failed\<close> for the status \<open>failed\<close> and \<open>Failed to check status\<close>
  for the two others. The job is kept: \<open>jobId\<close> is unchanged.
\<close>

theorem failures_alert_and_return:
  "(failed_fetch up \<and> step (UploadDone k up) s = Some s' \<longrightarrow>
      currentStep s' = Upload \<and>
      alerts s' = alerts s @ [''Failed to upload file. Please try again.''] \<and>
      requests s' = requests s \<and> nextInterval s' = nextInterval s \<and> jobId s' = jobId s) \<and>
   (failed_fetch st \<and> step (StatusDone k st) s = Some s' \<longrightarrow>
      currentStep s' = Upload \<and>
      alerts s' = alerts s @ [''Failed to check status. Please try again.''] \<and>
      requests s' = requests s \<and> nextInterval s' = nextInterval s \<and> jobId s' = jobId s \<and>
      map_of (intervals s') (fst (statusFetches s ! k)) = None) \<and>
   (status statusData = ''failed'' \<and> step (StatusDone k (Ok statusData)) s = Some s' \<longrightarrow>
      currentStep s' = Upload \<and>
      alerts s' = alerts s @ [''Processing failed. Please try again.''] \<and>
      requests s' = requests s \<and> nextInterval s' = nextInterval s \<and> jobId s' = jobId s \<and>
      map_of (intervals s') (fst (statusFetches s ! k)) = None) \<and>
   (failed_fetch rs \<and> step (ResultsDone k rs) s = Some s' \<longrightarrow>
      currentStep s' = Upload \<and>
      alerts s' = alerts s @ [''Failed to check status. Please try again.''] \<and>
      requests s' = requests s \<and> nextInterval s' = nextInterval s \<and> jobId s' = jobId s \<and>
      map_of (intervals s') (fst (resultsFetches s ! k)) = None)"
proof -
  have 1: "failed_fetch up \<and> step (UploadDone k up) s = Some s' \<longrightarrow>
      currentStep s' = Upload \<and>
      alerts s' = alerts s @ [''Failed to upload file. Please try again.''] \<and>
      requests s' = requests s \<and> nextInterval s' = nextInterval s \<and> jobId s' = jobId s"
    using upload_failure_step[of up k s s'] by auto
  have 2: "failed_fetch st \<and> step (StatusDone k st) s = Some s' \<longrightarrow>
      currentStep s' = Upload \<and>
      alerts s' = alerts s @ [''Failed to check status. Please try again.''] \<and>
      requests s' = requests s \<and> nextInterval s' = nextInterval s \<and> jobId s' = jobId s \<and>
      map_of (intervals s') (fst (statusFetches s ! k)) = None"
    using status_failure_step[of st k s s'] by (auto simp: map_of_filter_out)
  have 3: "status statusData = ''failed'' \<and> step (StatusDone k (Ok statusData)) s = Some s' \<longrightarrow>
      currentStep s' = Upload \<and>
      alerts s' = alerts s @ [''Processing failed. Please try again.''] \<and>
      requests s' = requests s \<and> nextInterval s' = nextInterval s \<and> jobId s' = jobId s \<and>
      map_of (intervals s') (fst (statusFetches s ! k)) = None"
    using status_failed_step[of statusData k s s'] by (auto simp: map_of_filter_out)
  have 4: "failed_fetch rs \<and> step (ResultsDone k rs) s = Some s' \<longrightarrow>
      currentStep s' = Upload \<and>
      alerts s' = alerts s @ [''Failed to check status. Please try again.''] \<and>
      requests s' = requests s \<and> nextInterval s' = nextInterval s \<and> jobId s' = jobId s \<and>
      map_of (intervals s') (fst (resultsFetches s ! k)) = None"
    using results_failure_step[of rs k s s'] by (auto simp: map_of_filter_out)
  from 1 2 3 4 show ?thesis by blast
qed

theorem failures_alert_and_return_witness:
  "failed_fetch (Rejected :: string fetched) \<and>
   step (UploadDone 0 Rejected) (after [SelectFile proof_png])
     = Some (after [SelectFile proof_png, UploadDone 0 Rejected]) \<and>
   alerts (after [SelectFile proof_png, UploadDone 0 Rejected])
     = [''Failed to upload file. Please try again.''] \<and>
   failed_fetch (NotOk :: status_data fetched) \<and>
   step (StatusDone 0 NotOk) (after (submitted @ [Tick 0]))
     = Some (after (submitted @ [Tick 0, StatusDone 0 NotOk])) \<and>
   alerts (after (submitted @ [Tick 0, StatusDone 0 NotOk]))
     = [''Failed to check status. Please try again.''] \<and>
   status status_failed = ''failed'' \<and>
   step (StatusDone 0 (Ok status_failed)) (after (submitted @ [Tick 0]))
     = Some (after failed_poll) \<and>
   alerts (after failed_poll) = [''Processing failed. Please try again.''] \<and>
   currentStep (after failed_poll) = Upload \<and>
   jobId (after failed_poll) = Some ''42'' \<and>
   failed_fetch (BadBody :: grading_result fetched) \<and>
   step (ResultsDone 0 BadBody) (after (submitted @ [Tick 0, StatusDone 0 (Ok status_done)]))
     = Some (after (submitted @ [Tick 0, StatusDone 0 (Ok status_done), ResultsDone 0 BadBody])) \<and>
   alerts (after (submitted @ [Tick 0, StatusDone 0 (Ok status_done), ResultsDone 0 BadBody]))
     = [''Failed to check status. Please try again.'']"
proof -
  have a: "failed_fetch (Rejected :: string fetched)"
    "step (UploadDone 0 Rejected) (after [SelectFile proof_png])
       = Some (after [SelectFile proof_png, UploadDone 0 Rejected])"
    by (simp_all add: after_def submitted_def failed_poll_def status_done_def
        status_failed_def failed_fetch_def model_defs)
  have b: "failed_fetch (NotOk :: status_data fetched)"
    "step (StatusDone 0 NotOk) (after (submitted @ [Tick 0]))
       = Some (after (submitted @ [Tick 0, StatusDone 0 NotOk]))"
    by (simp_all add: after_def submitted_def failed_poll_def status_done_def
        status_failed_def failed_fetch_def model_defs)
  have c: "status status_failed = ''failed''"
    "step (StatusDone 0 (Ok status_failed)) (after (submitted @ [Tick 0]))
       = Some (after failed_poll)"
    by (simp_all add: after_def submitted_def failed_poll_def status_done_def
        status_failed_def failed_fetch_def model_defs)
  have d: "failed_fetch (BadBody :: grading_result fetched)"
    "step (ResultsDone 0 BadBody) (after (submitted @ [Tick 0, StatusDone 0 (Ok status_done)]))
       = Some (after (submitted @ [Tick 0, StatusDone 0 (Ok status_done), ResultsDone 0 BadBody]))"
    by (simp_all add: after_def submitted_def failed_poll_def status_done_def
        status_failed_def failed_fetch_def model_defs)
  have e: "alerts (after [SelectFile proof_png]) = []" "alerts (after (submitted @ [Tick 0])) = []"
    "alerts (after (submitted @ [Tick 0, StatusDone 0 (Ok status_done)])) = []"
    "jobId (after (submitted @ [Tick 0])) = Some ''42''"
    by (simp_all add: after_def submitted_def failed_poll_def status_done_def
        status_failed_def failed_fetch_def model_defs)
  from failures_alert_and_return[where k = 0 and up = Rejected and s = "after [SelectFile proof_png]"
         and s' = "after [SelectFile proof_png, UploadDone 0 Rejected]"]
       failures_alert_and_return[where k = 0 and st = NotOk and s = "after (submitted @ [Tick 0])"
         and s' = "after (submitted @ [Tick 0, StatusDone 0 NotOk])"]
       failures_alert_and_return[where k = 0 and statusData = status_failed
         and s = "after (submitted @ [Tick 0])" and s' = "after failed_poll"]
       failures_alert_and_return[where k = 0 and rs = BadBody
         and s = "after (submitted @ [Tick 0, StatusDone 0 (Ok status_done)])"
         and s' = "after (submitted @ [Tick 0, StatusDone 0 (Ok status_done), ResultsDone 0 BadBody])"]
       a b c d e
  show ?thesis by simp
qed

subsection \<open>The end of polling\<close>

text \<open>
  Claim C7 says that a terminal status or a failed poll cancels the timer for good, and
  that no transition away from \<open>processing\<close> leaves the polling loop running. The second
  part fails on the code, since a callback clears only the timer of its own closure. Two
  polls of job 42 overlap and the first is rejected; the user uploads again and job 43
  is polled by a new timer; now the second poll of job 42 is rejected: the view leaves
  \<open>processing\<close>, the timer of job 43 is still active, and its next tick asks for the
  status of job 43.
\<close>

theorem stale_failure_counterexample:
  "map_option currentStep (run second_job app0) = Some Processing \<and>
   map_option intervals (run second_job app0) = Some [(1, ''43'')] \<and>
   map_option currentStep (run (second_job @ [StatusDone 0 Rejected]) app0) = Some Upload \<and>
   map_option intervals (run (second_job @ [StatusDone 0 Rejected]) app0) = Some [(1, ''43'')] \<and>
   map_option requests (run (second_job @ [StatusDone 0 Rejected, Tick 1]) app0) =
     Some [PostGrade proof_png, GetStatus ''42'', GetStatus ''42'', PostGrade proof_png,
           GetStatus ''43'']"
  by (simp add: submitted_def two_ticks_def second_job_def model_defs)

text \<open>
  Claim C7, amended: in every reachable state, once the callback of a polling loop sees
  the status \<open>done\<close> or \<open>failed\<close>, or its status request fails, the timer of that loop is
  cleared and never fires again, whatever happens afterwards, so that the loop sends no
  further status request; the same holds once the request for its results is answered.
  Every change of the view state by a status response is of this kind. A response leaves
  every timer but its own as it was.
\<close>

theorem terminal_stops_polling:
  assumes "run es0 app0 = Some s"
  shows "(observes_end out \<and> step (StatusDone k out) s = Some s' \<and> run es s' = Some s'' \<longrightarrow>
            step (Tick (fst (statusFetches s ! k))) s'' = None) \<and>
         (step (ResultsDone k rs) s = Some s' \<and> run es s' = Some s'' \<longrightarrow>
            step (Tick (fst (resultsFetches s ! k))) s'' = None) \<and>
         (step (StatusDone k out) s = Some s' \<and> currentStep s' \<noteq> currentStep s \<longrightarrow>
            observes_end out) \<and>
         (step (StatusDone k out) s = Some s' \<and> h \<noteq> fst (statusFetches s ! k) \<longrightarrow>
            map_of (intervals s') h = map_of (intervals s) h)"
proof -
  from reachable_stopped[OF assms] have f: "inv_fresh s" and st: "inv_stopped s" by simp_all
  have 1: "observes_end out \<and> step (StatusDone k out) s = Some s' \<and> run es s' = Some s'' \<longrightarrow>
            step (Tick (fst (statusFetches s ! k))) s'' = None"
  proof (intro impI, elim conjE)
    assume a: "observes_end out" "step (StatusDone k out) s = Some s'" "run es s' = Some s''"
    from status_end_stops[OF f a(2) a(1)] have "stopped (fst (statusFetches s ! k)) s'" .
    from stopped_run[OF a(3) this] show "step (Tick (fst (statusFetches s ! k))) s'' = None"
      by (rule stopped_no_tick)
  qed
  have 2: "step (ResultsDone k rs) s = Some s' \<and> run es s' = Some s'' \<longrightarrow>
            step (Tick (fst (resultsFetches s ! k))) s'' = None"
  proof (intro impI, elim conjE)
    assume a: "step (ResultsDone k rs) s = Some s'" "run es s' = Some s''"
    from a(1) have "k < length (resultsFetches s)" by (simp split: if_splits)
    with st have "stopped (fst (resultsFetches s ! k)) s" by (simp add: inv_stopped_def)
    from stopped_step[OF this a(1)] have "stopped (fst (resultsFetches s ! k)) s'" .
    from stopped_run[OF a(2) this] show "step (Tick (fst (resultsFetches s ! k))) s'' = None"
      by (rule stopped_no_tick)
  qed
  from 1 2 view_change_by_status[of k out s s'] other_timers_kept[of k out s s' h]
  show ?thesis by blast
qed

theorem terminal_stops_polling_witness:
  "run (submitted @ [Tick 0]) app0 = Some (after (submitted @ [Tick 0])) \<and>
   observes_end (Ok status_failed) \<and>
   step (StatusDone 0 (Ok status_failed)) (after (submitted @ [Tick 0])) = Some (after failed_poll) \<and>
   currentStep (after failed_poll) \<noteq> currentStep (after (submitted @ [Tick 0])) \<and>
   run [SelectFile proof_png, UploadDone 0 (Ok ''43'')] (after failed_poll)
     = Some (after (failed_poll @ [SelectFile proof_png, UploadDone 0 (Ok ''43'')])) \<and>
   fst (statusFetches (after (submitted @ [Tick 0])) ! 0) = 0 \<and>
   step (Tick 0) (after (failed_poll @ [SelectFile proof_png, UploadDone 0 (Ok ''43'')])) = None \<and>
   run (submitted @ [Tick 0, StatusDone 0 (Ok status_done)]) app0
     = Some (after (submitted @ [Tick 0, StatusDone 0 (Ok status_done)])) \<and>
   step (ResultsDone 0 (Ok graded)) (after (submitted @ [Tick 0, StatusDone 0 (Ok status_done)]))
     = Some (after happy) \<and>
   step (Tick 0) (after happy) = None \<and>
   run second_job app0 = Some (after second_job) \<and>
   step (StatusDone 0 Rejected) (after second_job)
     = Some (after (second_job @ [StatusDone 0 Rejected])) \<and>
   map_of (intervals (after (second_job @ [StatusDone 0 Rejected]))) 1 = Some ''43''"
proof -
  have a: "run (submitted @ [Tick 0]) app0 = Some (after (submitted @ [Tick 0]))"
    "observes_end (Ok status_failed)"
    "step (StatusDone 0 (Ok status_failed)) (after (submitted @ [Tick 0])) = Some (after failed_poll)"
    "run [SelectFile proof_png, UploadDone 0 (Ok ''43'')] (after failed_poll)
       = Some (after (failed_poll @ [SelectFile proof_png, UploadDone 0 (Ok ''43'')]))"
    "fst (statusFetches (after (submitted @ [Tick 0])) ! 0) = 0"
    "currentStep (after failed_poll) \<noteq> currentStep (after (submitted @ [Tick 0]))"
    by (simp_all add: after_def submitted_def two_ticks_def happy_def failed_poll_def
        second_job_def status_done_def status_failed_def observes_end_def model_defs)
  have b: "run (submitted @ [Tick 0, StatusDone 0 (Ok status_done)]) app0
       = Some (after (submitted @ [Tick 0, StatusDone 0 (Ok status_done)]))"
    "step (ResultsDone 0 (Ok graded)) (after (submitted @ [Tick 0, StatusDone 0 (Ok status_done)]))
       = Some (after happy)"
    "run [] (after happy) = Some (after happy)"
    "fst (resultsFetches (after (submitted @ [Tick 0, StatusDone 0 (Ok status_done)])) ! 0) = 0"
    by (simp_all add: after_def submitted_def two_ticks_def happy_def failed_poll_def
        second_job_def status_done_def status_failed_def observes_end_def model_defs)
  have c: "run second_job app0 = Some (after second_job)"
    "step (StatusDone 0 Rejected) (after second_job)
       = Some (after (second_job @ [StatusDone 0 Rejected]))"
    "fst (statusFetches (after second_job) ! 0) = 0"
    "map_of (intervals (after second_job)) 1 = Some ''43''"
    by (simp_all add: after_def submitted_def two_ticks_def happy_def failed_poll_def
        second_job_def status_done_def status_failed_def observes_end_def model_defs)
  from terminal_stops_polling[OF a(1), where out = "Ok status_failed" and k = 0
         and s' = "after failed_poll" and es = "[SelectFile proof_png, UploadDone 0 (Ok ''43'')]"
         and s'' = "after (failed_poll @ [SelectFile proof_png, UploadDone 0 (Ok ''43'')])"]
       terminal_stops_polling[OF b(1), where rs = "Ok graded" and k = 0
         and s' = "after happy" and es = "[]" and s'' = "after happy"]
       terminal_stops_polling[OF c(1), where out = Rejected and k = 0
         and s' = "after (second_job @ [StatusDone 0 Rejected])" and h = 1]
       a b c
  show ?thesis by simp
qed

subsection \<open>What a failure leaves in place\<close>

text \<open>
  Claim C10 says that a failure changes the view state only, progress, message, job id
  and results keeping their values, for a failed upload, a failed poll and the status
  \<open>failed\<close> alike. For the status \<open>failed\<close> it fails on the code: the callback stores
  the progress and the message of every status response (lines 402 and 403) before it
  looks at the status, so that the run which returns to \<open>upload\<close> has replaced both.
\<close>

theorem failed_status_counterexample:
  "map_option currentStep (run (submitted @ [Tick 0]) app0) = Some Processing \<and>
   map_option progress (run (submitted @ [Tick 0]) app0) = Some 10 \<and>
   map_option message (run (submitted @ [Tick 0]) app0) = Some ''Uploading your proof...'' \<and>
   map_option currentStep (run failed_poll app0) = Some Upload \<and>
   map_option progress (run failed_poll app0) = Some 55 \<and>
   map_option message (run failed_poll app0) = Some ''OCR crashed''"
  by (simp add: submitted_def failed_poll_def status_failed_def model_defs)

text \<open>
  Claim C10, amended: a failed upload and a failed status request set the step \<open>upload\<close>
  and leave progress, message, job id and results as they were. The status \<open>failed\<close>
  sets the step \<open>upload\<close> and leaves job id and results as they were, while progress and
  message take the values of that status response. Reset sets the step \<open>upload\<close>, the job
  id and the results to \<open>null\<close>, the progress to 0 and the message to the empty string,
  and no other event sets a job id or results back to \<open>null\<close>.
\<close>

theorem failure_frame:
  "(failed_fetch up \<and> step (UploadDone k up) s = Some s' \<longrightarrow>
      currentStep s' = Upload \<and> progress s' = progress s \<and> message s' = message s \<and>
      jobId s' = jobId s \<and> results s' = results s) \<and>
   (failed_fetch st \<and> step (StatusDone k st) s = Some s' \<longrightarrow>
      currentStep s' = Upload \<and> progress s' = progress s \<and> message s' = message s \<and>
      jobId s' = jobId s \<and> results s' = results s) \<and>
   (status statusData = ''failed'' \<and> step (StatusDone k (Ok statusData)) s = Some s' \<longrightarrow>
      currentStep s' = Upload \<and> progress s' = newProgress statusData \<and>
      message s' = newMessage statusData \<and> jobId s' = jobId s \<and> results s' = results s) \<and>
   (step Reset s = Some s' \<longrightarrow>
      currentStep s' = Upload \<and> jobId s' = None \<and> progress s' = 0 \<and> message s' = [] \<and>
      results s' = None) \<and>
   (step e s = Some s' \<and> e \<noteq> Reset \<longrightarrow>
      (jobId s \<noteq> None \<longrightarrow> jobId s' \<noteq> None) \<and> (results s \<noteq> None \<longrightarrow> results s' \<noteq> None))"
proof -
  have 1: "failed_fetch up \<and> step (UploadDone k up) s = Some s' \<longrightarrow>
      currentStep s' = Upload \<and> progress s' = progress s \<and> message s' = message s \<and>
      jobId s' = jobId s \<and> results s' = results s"
    using upload_failure_step[of up k s s'] by auto
  have 2: "failed_fetch st \<and> step (StatusDone k st) s = Some s' \<longrightarrow>
      currentStep s' = Upload \<and> progress s' = progress s \<and> message s' = message s \<and>
      jobId s' = jobId s \<and> results s' = results s"
    using status_failure_step[of st k s s'] by auto
  have 3: "status statusData = ''failed'' \<and> step (StatusDone k (Ok statusData)) s = Some s' \<longrightarrow>
      currentStep s' = Upload \<and> progress s' = newProgress statusData \<and>
      message s' = newMessage statusData \<and> jobId s' = jobId s \<and> results s' = results s"
    using status_failed_step[of statusData k s s'] by auto
  have 4: "step Reset s = Some s' \<longrightarrow>
      currentStep s' = Upload \<and> jobId s' = None \<and> progress s' = 0 \<and> message s' = [] \<and>
      results s' = None"
    by (auto simp: handleReset_def split: if_splits)
  have 5: "step e s = Some s' \<and> e \<noteq> Reset \<longrightarrow>
      (jobId s \<noteq> None \<longrightarrow> jobId s' \<noteq> None) \<and> (results s \<noteq> None \<longrightarrow> results s' \<noteq> None)"
    using only_reset_discards[of e s s'] by blast
  from 1 2 3 4 5 show ?thesis by blast
qed

theorem failure_frame_witness:
  "failed_fetch (Rejected :: string fetched) \<and>
   step (UploadDone 0 Rejected) (after [SelectFile proof_png])
     = Some (after [SelectFile proof_png, UploadDone 0 Rejected]) \<and>
   progress (after [SelectFile proof_png, UploadDone 0 Rejected]) = 10 \<and>
   failed_fetch (NotOk :: status_data fetched) \<and>
   step (StatusDone 0 NotOk) (after (submitted @ [Tick 0]))
     = Some (after (submitted @ [Tick 0, StatusDone 0 NotOk])) \<and>
   message (after (submitted @ [Tick 0, StatusDone 0 NotOk])) = ''Uploading your proof...'' \<and>
   jobId (after (submitted @ [Tick 0, StatusDone 0 NotOk])) = Some ''42'' \<and>
   status status_failed = ''failed'' \<and>
   step (StatusDone 0 (Ok status_failed)) (after (submitted @ [Tick 0]))
     = Some (after failed_poll) \<and>
   progress (after failed_poll) = 55 \<and>
   jobId (after failed_poll) = Some ''42'' \<and>
   step Reset (after happy) = Some (after (happy @ [Reset])) \<and>
   jobId (after (happy @ [Reset])) = None \<and>
   results (after (happy @ [Reset])) = None \<and>
   progress (after (happy @ [Reset])) = 0 \<and>
   step (StatusDone 0 (Ok status_running)) (after late_results)
     = Some (after (late_results @ [StatusDone 0 (Ok status_running)])) \<and>
   results (after late_results) \<noteq> None \<and> jobId (after late_results) \<noteq> None \<and>
   results (after (late_results @ [StatusDone 0 (Ok status_running)])) \<noteq> None"
proof -
  have a: "failed_fetch (Rejected :: string fetched)"
    "step (UploadDone 0 Rejected) (after [SelectFile proof_png])
       = Some (after [SelectFile proof_png, UploadDone 0 Rejected])"
    "progress (after [SelectFile proof_png]) = 10"
    by (simp_all add: after_def submitted_def two_ticks_def happy_def failed_poll_def
        late_results_def status_done_def status_failed_def status_running_def
        failed_fetch_def model_defs)
  have b: "failed_fetch (NotOk :: status_data fetched)"
    "step (StatusDone 0 NotOk) (after (submitted @ [Tick 0]))
       = Some (after (submitted @ [Tick 0, StatusDone 0 NotOk]))"
    "message (after (submitted @ [Tick 0])) = ''Uploading your proof...''"
    "jobId (after (submitted @ [Tick 0])) = Some ''42''"
    by (simp_all add: after_def submitted_def two_ticks_def happy_def failed_poll_def
        late_results_def status_done_def status_failed_def status_running_def
        failed_fetch_def model_defs)
  have c: "status status_failed = ''failed''"
    "step (StatusDone 0 (Ok status_failed)) (after (submitted @ [Tick 0]))
       = Some (after failed_poll)"
    "newProgress status_failed = 55"
    by (simp_all add: after_def submitted_def two_ticks_def happy_def failed_poll_def
        late_results_def status_done_def status_failed_def status_running_def
        failed_fetch_def model_defs)
  have d: "step Reset (after happy) = Some (after (happy @ [Reset]))"
    by (simp add: after_def submitted_def two_ticks_def happy_def failed_poll_def
        late_results_def status_done_def status_failed_def status_running_def
        failed_fetch_def model_defs)
  have e: "step (StatusDone 0 (Ok status_running)) (after late_results)
       = Some (after (late_results @ [StatusDone 0 (Ok status_running)]))"
    "results (after late_results) \<noteq> None" "jobId (after late_results) \<noteq> None"
    "StatusDone 0 (Ok status_running) \<noteq> Reset"
    by (simp_all add: after_def submitted_def two_ticks_def happy_def failed_poll_def
        late_results_def status_done_def status_failed_def status_running_def
        failed_fetch_def model_defs)
  from failure_frame[where k = 0 and up = Rejected and s = "after [SelectFile proof_png]"
         and s' = "after [SelectFile proof_png, UploadDone 0 Rejected]", THEN conjunct1] a
  have 1: "progress (after [SelectFile proof_png, UploadDone 0 Rejected]) = 10"
    by simp
  from failure_frame[where k = 0 and st = NotOk and s = "after (submitted @ [Tick 0])"
         and s' = "after (submitted @ [Tick 0, StatusDone 0 NotOk])",
         THEN conjunct2, THEN conjunct1] b
  have 2: "message (after (submitted @ [Tick 0, StatusDone 0 NotOk])) = ''Uploading your proof...''"
    "jobId (after (submitted @ [Tick 0, StatusDone 0 NotOk])) = Some ''42''"
    by simp_all
  from failure_frame[where k = 0 and statusData = status_failed
         and s = "after (submitted @ [Tick 0])" and s' = "after failed_poll",
         THEN conjunct2, THEN conjunct2, THEN conjunct1] b c
  have 3: "progress (after failed_poll) = 55" "jobId (after failed_poll) = Some ''42''"
    by simp_all
  from failure_frame[where s = "after happy" and s' = "after (happy @ [Reset])",
         THEN conjunct2, THEN conjunct2, THEN conjunct2, THEN conjunct1] d
  have 4: "jobId (after (happy @ [Reset])) = None" "results (after (happy @ [Reset])) = None"
    "progress (after (happy @ [Reset])) = 0"
    by simp_all
  from failure_frame[where s = "after late_results" and e = "StatusDone 0 (Ok status_running)"
         and s' = "after (late_results @ [StatusDone 0 (Ok status_running)])",
         THEN conjunct2, THEN conjunct2, THEN conjunct2, THEN conjunct2] e
  have 5: "results (after (late_results @ [StatusDone 0 (Ok status_running)])) \<noteq> None"
    by blast
  from 1 2 3 4 5 a b c d e show ?thesis by simp
qed

end
